theory Spec2Isabelle
  imports Complex_Main "HOL-Library.Sublist"
begin

section \<open>Strings\<close>

text \<open>
  Python strings are modelled as \<open>string\<close>: a list of characters with code points
  below 256. On these code points \<open>str.lower\<close>, \<open>str.strip\<close> and the word class of
  the \<open>re\<close> module are the following tables.
\<close>

definition in_range :: "nat \<Rightarrow> nat \<Rightarrow> char \<Rightarrow> bool" where
  "in_range lo hi c = (lo \<le> (of_char c :: nat) \<and> (of_char c :: nat) \<le> hi)"

text \<open>The class \<open>[a-zA-Z]\<close>.\<close>

definition is_alpha :: "char \<Rightarrow> bool" where
  "is_alpha c = (in_range 97 122 c \<or> in_range 65 90 c)"

text \<open>The class \<open>\w\<close> of a \<open>str\<close> pattern: alphanumeric characters and the underscore.\<close>

definition is_word :: "char \<Rightarrow> bool" where
  "is_word c =
     (in_range 48 57 c \<or> in_range 65 90 c \<or> c = CHR ''_'' \<or> in_range 97 122 c \<or>
      in_range 170 170 c \<or> in_range 178 179 c \<or> in_range 181 181 c \<or>
      in_range 185 186 c \<or> in_range 188 190 c \<or> in_range 192 214 c \<or>
      in_range 216 246 c \<or> in_range 248 255 c)"

text \<open>The characters removed by \<open>str.strip()\<close>.\<close>

definition is_space :: "char \<Rightarrow> bool" where
  "is_space c =
     (in_range 9 13 c \<or> in_range 28 32 c \<or> in_range 133 133 c \<or> in_range 160 160 c)"

definition lower_char :: "char \<Rightarrow> char" where
  "lower_char c =
     (if in_range 65 90 c \<or> in_range 192 214 c \<or> in_range 216 222 c
      then char_of ((of_char c :: nat) + 32) else c)"

definition str_lower :: "string \<Rightarrow> string" where
  "str_lower s = map lower_char s"

definition str_strip :: "string \<Rightarrow> string" where
  "str_strip s = rev (dropWhile is_space (rev (dropWhile is_space s)))"

text \<open>\<open>sep.join(parts)\<close>.\<close>

fun join :: "string \<Rightarrow> string list \<Rightarrow> string" where
  "join sep [] = []"
| "join sep [x] = x"
| "join sep (x # y # ys) = x @ sep @ join sep (y # ys)"

text \<open>The test \<open>t in s\<close> on strings.\<close>

fun contains :: "string \<Rightarrow> string \<Rightarrow> bool" where
  "contains t [] = (t = [])"
| "contains t (c # cs) = (prefix t (c # cs) \<or> contains t cs)"

section \<open>Regular expressions\<close>

text \<open>
  The patterns of \<open>rag.py\<close> use literal characters, the class \<open>[- ]\<close>, groups with
  alternatives, the optional \<open>?\<close> and the word boundary \<open>\b\<close>.
\<close>

datatype regex =
    Eps
  | Chr char
  | OneOf "char list"
  | Bound
  | Cat regex regex
  | Alt regex regex
  | Opt regex

text \<open>
  A position in the subject string is the character before it (if any) and the rest of the
  string from there on. \<open>\b\<close> holds at a position when exactly one of the characters
  before and after it is a word character; the ends of the string count as non-word.
\<close>

type_synonym position = "char option \<times> string"

fun word_before :: "char option \<Rightarrow> bool" where
  "word_before None = False"
| "word_before (Some c) = is_word c"

fun word_after :: "string \<Rightarrow> bool" where
  "word_after [] = False"
| "word_after (c # cs) = is_word c"

definition boundary :: "char option \<Rightarrow> string \<Rightarrow> bool" where
  "boundary prev s = (word_before prev \<noteq> word_after s)"

text \<open>
  \<open>rmatch r prev s\<close>: the positions where a match of \<open>r\<close> that starts at the position
  \<open>(prev, s)\<close> can end, in the order in which a backtracking matcher tries them.
\<close>

fun rmatch :: "regex \<Rightarrow> char option \<Rightarrow> string \<Rightarrow> position list" where
  "rmatch Eps prev s = [(prev, s)]"
| "rmatch (Chr c) prev [] = []"
| "rmatch (Chr c) prev (x # xs) = (if x = c then [(Some x, xs)] else [])"
| "rmatch (OneOf cs) prev [] = []"
| "rmatch (OneOf cs) prev (x # xs) = (if x \<in> set cs then [(Some x, xs)] else [])"
| "rmatch Bound prev s = (if boundary prev s then [(prev, s)] else [])"
| "rmatch (Cat a b) prev s = concat (map (\<lambda>(prev', s'). rmatch b prev' s') (rmatch a prev s))"
| "rmatch (Alt a b) prev s = rmatch a prev s @ rmatch b prev s"
| "rmatch (Opt a) prev s = rmatch a prev s @ [(prev, s)]"

text \<open>
  \<open>re.search(p, s)\<close> as a truth value: the scan tries every start position from left to
  right, the end of the string included.
\<close>

fun search_from :: "regex \<Rightarrow> char option \<Rightarrow> string \<Rightarrow> bool" where
  "search_from p prev [] = (rmatch p prev [] \<noteq> [])"
| "search_from p prev (c # cs) = (rmatch p prev (c # cs) \<noteq> [] \<or> search_from p (Some c) cs)"

definition re_search :: "regex \<Rightarrow> string \<Rightarrow> bool" where
  "re_search p s = search_from p None s"

text \<open>A literal string, a sequence, and a pattern of the form \<open>\b...\b\<close>.\<close>

fun lit :: "string \<Rightarrow> regex" where
  "lit [] = Eps"
| "lit [c] = Chr c"
| "lit (c # cs) = Cat (Chr c) (lit cs)"

fun cats :: "regex list \<Rightarrow> regex" where
  "cats [] = Eps"
| "cats [r] = r"
| "cats (r # rs) = Cat r (cats rs)"

definition bounded :: "regex list \<Rightarrow> regex" where
  "bounded rs = Cat Bound (Cat (cats rs) Bound)"

definition hyphen_or_space :: regex where
  "hyphen_or_space = OneOf ''- ''"

section \<open>Topic gate\<close>

definition REFUSAL_TEXT :: string where
  "REFUSAL_TEXT =
     ''I cannot answer this question within the constraints of this agent. '' @
     ''The answer would require concepts or frameworks not contained in the provided corpus.''"

definition ALLOWED_TOPIC_PATTERNS :: "regex list" where
  "ALLOWED_TOPIC_PATTERNS =
    [bounded [lit ''existential'', Opt (Alt (lit ''ism'') (lit ''ist''))],
     bounded [lit ''sartre''], bounded [lit ''jean'', hyphen_or_space, lit ''paul''],
     bounded [lit ''beauvoir''], bounded [lit ''simone''],
     bounded [lit ''camus''], bounded [lit ''heidegger''],
     bounded [lit ''husserl''], bounded [lit ''merleau'', hyphen_or_space, lit ''ponty''],
     bounded [lit ''jaspers''],
     bounded [lit ''existence''], bounded [lit ''exist''], bounded [lit ''to exist''],
     bounded [lit ''being''], bounded [lit ''essence''],
     bounded [lit ''bad faith''], bounded [lit ''mauvaise foi''],
     bounded [lit ''existence precedes essence''],
     bounded [lit ''freedom''], bounded [lit ''responsibilit'', Alt (lit ''y'') (lit ''ies'')],
     bounded [lit ''authentic'', Opt (lit ''ity'')],
     bounded [lit ''anguish''], bounded [lit ''abandonment''],
     bounded [lit ''for'', hyphen_or_space, lit ''itself''],
     bounded [lit ''in'', hyphen_or_space, lit ''itself'']]"

definition in_allowed_domain :: "string \<Rightarrow> bool" where
  "in_allowed_domain query =
     (let q = str_lower query in list_ex (\<lambda>p. re_search p q) ALLOWED_TOPIC_PATTERNS)"

definition BANNED_QUERY_PATTERNS :: "regex list" where
  "BANNED_QUERY_PATTERNS =
    [bounded [lit ''depression''], bounded [lit ''anxiety''], bounded [lit ''therapy''],
     bounded [lit ''treat'', Opt (lit ''ment'')],
     bounded [lit ''psychiatr'', Alt (lit ''y'') (lit ''ic'')],
     bounded [lit ''psycholog'', Alt (lit ''y'') (lit ''ical'')],
     bounded [lit ''diagnos'', Alt (lit ''e'') (lit ''is'')],
     bounded [lit ''cope''], bounded [lit ''heal'', Opt (lit ''ing'')],
     bounded [lit ''well'', Opt hyphen_or_space, lit ''being''],
     bounded [lit ''what should i do''], bounded [lit ''should i''],
     bounded [lit ''help me''], bounded [lit ''overcome''],
     bounded [lit ''steps''], bounded [lit ''advice''],
     bounded [lit ''compare''], bounded [lit ''vs''], bounded [lit ''versus''],
     bounded [lit ''stoic'', Opt (lit ''ism'')],
     bounded [lit ''buddh'', Alt (lit ''ism'') (lit ''ist'')],
     bounded [lit ''christianity''], bounded [lit ''islam''],
     bounded [lit ''hindu'', Opt (lit ''ism'')],
     bounded [lit ''ai''], bounded [lit ''artificial intelligence''],
     bounded [lit ''social media''], bounded [lit ''climate change''],
     bounded [lit ''twitter''], bounded [lit ''tiktok''],
     bounded [lit ''instagram''], bounded [lit ''chatgpt'']]"

definition STOPWORDS :: "string list" where
  "STOPWORDS =
    [''the'', ''a'', ''an'', ''and'', ''or'', ''to'', ''of'', ''in'', ''on'', ''for'', ''with'',
     ''is'', ''are'', ''was'', ''were'',
     ''what'', ''why'', ''how'', ''does'', ''do'', ''did'', ''should'', ''can'', ''could'',
     ''would'', ''i'', ''you'', ''we'',
     ''my'', ''your'', ''our'', ''me'', ''it'', ''this'', ''that'', ''these'', ''those'']"

definition has_banned_terms :: "string \<Rightarrow> bool" where
  "has_banned_terms query =
     (let q = str_lower query in list_ex (\<lambda>p. re_search p q) BANNED_QUERY_PATTERNS)"

text \<open>
  \<open>re.findall(r"[a-zA-Z]{3,}", s)\<close>: the scan collects the current run of letters in
  \<open>cur\<close> (reversed) and emits it when the run ends with at least three letters.
\<close>

definition emit :: "string \<Rightarrow> string list" where
  "emit cur = (if 3 \<le> length cur then [rev cur] else [])"

fun scan_alpha3 :: "string \<Rightarrow> string \<Rightarrow> string list" where
  "scan_alpha3 cur [] = emit cur"
| "scan_alpha3 cur (c # cs) =
     (if is_alpha c then scan_alpha3 (c # cur) cs else emit cur @ scan_alpha3 [] cs)"

definition findall_alpha3 :: "string \<Rightarrow> string list" where
  "findall_alpha3 s = scan_alpha3 [] s"

text \<open>The helper \<open>_keywords\<close>.\<close>

definition keywords_of :: "string \<Rightarrow> string list" where
  "keywords_of text = filter (\<lambda>t. t \<notin> set STOPWORDS) (findall_alpha3 (str_lower text))"

section \<open>Passages\<close>

text \<open>
  An entry of the chunk store (\<open>chunks.json\<close>, written by \<open>ingest.py\<close>) has the keys
  \<open>chunk\<close>, \<open>source\<close> and \<open>page\<close>; a retrieved passage has the key \<open>score\<close> as well.
  Scores are the finite values of the similarity search, taken as real numbers.
\<close>

record item =
  chunk :: string
  source :: string
  page :: int

record passage = item +
  score :: real

section \<open>Support verifier\<close>

definition query_supported_by_context :: "string \<Rightarrow> passage list \<Rightarrow> bool" where
  "query_supported_by_context query passages =
     (let q_terms = remdups (keywords_of query) in
      if q_terms = [] then False
      else
        let ctx = str_lower (join '' '' (map chunk passages));
            hits = length (filter (\<lambda>t. contains t ctx) q_terms);
            required = (if length q_terms \<le> 4 then 1 else 2)
        in hits \<ge> required)"

text \<open>The optional argument \<open>passages\<close> defaults to \<open>None\<close>.\<close>

definition should_refuse_query :: "string \<Rightarrow> passage list option \<Rightarrow> bool" where
  "should_refuse_query query passages =
     (if has_banned_terms query then True
      else if passages \<noteq> None \<and> \<not> query_supported_by_context query (the passages) then True
      else if \<not> in_allowed_domain query then True
      else False)"

section \<open>Retrieval\<close>

definition TOP_K :: nat where
  "TOP_K = 8"

definition MIN_SCORE :: real where
  "MIN_SCORE = 0.25"

definition MAX_CONTEXT_CHARS :: nat where
  "MAX_CONTEXT_CHARS = 3000"

datatype error =
    IndexError
  | RequestTimeout
  | RequestFailed
  | HTTPError nat
  | BadResponseBody

text \<open>\<open>xs[i]\<close> on a list: a negative index counts from the end.\<close>

definition list_index :: "'a list \<Rightarrow> int \<Rightarrow> error + 'a" where
  "list_index xs i =
     (if 0 \<le> i \<and> i < int (length xs) then Inr (xs ! nat i)
      else if i < 0 \<and> 0 \<le> int (length xs) + i then Inr (xs ! nat (int (length xs) + i))
      else Inl IndexError)"

text \<open>
  The loop of \<open>retrieve\<close> over \<open>zip(scores[0], ids[0])\<close>, with the list \<open>results\<close>
  built so far.
\<close>

fun retrieve_loop :: "(real \<times> int) list \<Rightarrow> item list \<Rightarrow> passage list \<Rightarrow> error + passage list"
where
  "retrieve_loop [] chunks results = Inr results"
| "retrieve_loop ((sc, idx) # rest) chunks results =
     (if idx = - 1 then retrieve_loop rest chunks results
      else if sc < MIN_SCORE then retrieve_loop rest chunks results
      else case list_index chunks idx of
             Inl e \<Rightarrow> Inl e
           | Inr it \<Rightarrow>
               retrieve_loop rest chunks
                 (results @ [\<lparr>chunk = chunk it, source = source it, page = page it, score = sc\<rparr>]))"

text \<open>
  The embedding model and the vector index are outside the repository: \<open>search query\<close> is
  the first row of scores and of identifiers that \<open>index.search\<close> returns for the
  normalised embedding of the query and \<open>TOP_K\<close>.
\<close>

type_synonym searcher = "string \<Rightarrow> real list \<times> int list"

definition retrieve :: "string \<Rightarrow> searcher \<Rightarrow> item list \<Rightarrow> error + (passage list \<times> real)" where
  "retrieve query search chunks =
     (let (scores, ids) = search query;
          best = (if length scores \<noteq> 0 then scores ! 0 else 0)
      in case retrieve_loop (zip scores ids) chunks [] of
           Inl e \<Rightarrow> Inl e
         | Inr results \<Rightarrow> Inr (results, best))"

section \<open>Context assembly\<close>

text \<open>The decimal text of an integer, as an f-string prints it.\<close>

definition digit :: "nat \<Rightarrow> char" where
  "digit d = char_of (48 + d)"

function str_nat :: "nat \<Rightarrow> string" where
  "str_nat n = (if n < 10 then [digit n] else str_nat (n div 10) @ [digit (n mod 10)])"
  by pat_completeness auto
termination
  by (relation "measure id") auto

definition str_int :: "int \<Rightarrow> string" where
  "str_int i = (if i < 0 then ''-'' @ str_nat (nat (- i)) else str_nat (nat i))"

text \<open>The snippet \<open>f"[{p['source']} p.{p['page']}] {p['chunk']}"\<close>.\<close>

definition snippet :: "passage \<Rightarrow> string" where
  "snippet p = ''['' @ source p @ '' p.'' @ str_int (page p) @ ''] '' @ chunk p"

text \<open>The loop of \<open>build_context\<close>, with \<open>context_parts\<close> and \<open>total\<close> (here \<open>total'\<close>).\<close>

fun build_loop :: "passage list \<Rightarrow> string list \<Rightarrow> nat \<Rightarrow> string list" where
  "build_loop [] context_parts total' = context_parts"
| "build_loop (p # ps) context_parts total' =
     (if total' + length (snippet p) > MAX_CONTEXT_CHARS then context_parts
      else build_loop ps (context_parts @ [snippet p]) (total' + length (snippet p)))"

definition build_context :: "passage list \<Rightarrow> string" where
  "build_context passages = join [CHR 0x0A, CHR 0x0A] (build_loop passages [] 0)"

definition refuse :: string where
  "refuse = REFUSAL_TEXT"

section \<open>Answer generation\<close>

text \<open>
  The sentence that the REFUSAL RULE of the prompt \<open>SYSTEM_RULES\<close> tells the generator to
  answer with.
\<close>

definition SYSTEM_RULES_refusal :: string where
  "SYSTEM_RULES_refusal =
     ''I cannot answer this question within the constraints of this agent. '' @
     ''The answer is not supported by the provided corpus.''"

text \<open>
  What \<open>requests.post\<close> does with the request: it times out, fails otherwise, or returns
  a response with a status code and a body. The body is given by the string under the key
  \<open>response\<close> of its JSON object, \<open>None\<close> when there is none.
\<close>

datatype http_outcome =
    Timeout
  | ConnectionFailed
  | Response nat "string option"

text \<open>
  The generation service is outside the repository. The prompt is made of the constant
  \<open>SYSTEM_RULES\<close>, the query and the context: \<open>service query context\<close> is the outcome of
  the request for them.
\<close>

type_synonym generator = "string \<Rightarrow> string \<Rightarrow> http_outcome"

text \<open>\<open>r.raise_for_status()\<close> raises for the status codes 400 to 599.\<close>

definition generate_answer :: "generator \<Rightarrow> string \<Rightarrow> string \<Rightarrow> error + string" where
  "generate_answer service query context =
     (case service query context of
        Timeout \<Rightarrow> Inl RequestTimeout
      | ConnectionFailed \<Rightarrow> Inl RequestFailed
      | Response status body \<Rightarrow>
          if 400 \<le> status \<and> status < 600 then Inl (HTTPError status)
          else case body of
                 None \<Rightarrow> Inl BadResponseBody
               | Some text \<Rightarrow> Inr (str_strip text))"

section \<open>The query pipeline of the application\<close>

text \<open>
  The pipeline of \<open>app.py\<close> stops with a refusal at one of four gates, shows an answer, or
  is left by an exception. Every refusal shows the text \<open>refuse()\<close>. The calls made to the
  functions of \<open>rag.py\<close> are recorded in order.
\<close>

datatype gate = TopicGate | ScoreGate | SupportGate | SelfRefusalGate

datatype outcome =
    Idle
  | Refused gate string
  | Answered string
  | Failed error

datatype call =
    ShouldRefuseQuery "passage list option"
  | Retrieve
  | BuildContext
  | GenerateAnswer

definition pipeline ::
  "string \<Rightarrow> searcher \<Rightarrow> item list \<Rightarrow> generator \<Rightarrow> call list \<times> outcome" where
  "pipeline query search chunks service =
     (if should_refuse_query query None
      then ([ShouldRefuseQuery None], Refused TopicGate refuse)
      else case retrieve query search chunks of
        Inl e \<Rightarrow> ([ShouldRefuseQuery None, Retrieve], Failed e)
      | Inr (passages, best) \<Rightarrow>
          if best < MIN_SCORE \<or> length passages = 0
          then ([ShouldRefuseQuery None, Retrieve], Refused ScoreGate refuse)
          else if should_refuse_query query (Some passages)
          then ([ShouldRefuseQuery None, Retrieve, ShouldRefuseQuery (Some passages)],
                Refused SupportGate refuse)
          else
            let context = build_context passages;
                calls = [ShouldRefuseQuery None, Retrieve, ShouldRefuseQuery (Some passages),
                         BuildContext, GenerateAnswer]
            in case generate_answer service query context of
                 Inl e \<Rightarrow> (calls, Failed e)
               | Inr answer \<Rightarrow>
                   if str_strip answer = str_strip refuse
                   then (calls, Refused SelfRefusalGate refuse)
                   else (calls, Answered answer))"

text \<open>
  The pipeline runs when the button \<open>Ask\<close> is pressed and the stripped query is not empty.
\<close>

definition ask :: "bool \<Rightarrow> string \<Rightarrow> searcher \<Rightarrow> item list \<Rightarrow> generator \<Rightarrow> call list \<times> outcome"
where
  "ask pressed query search chunks service =
     (if pressed \<and> str_strip query \<noteq> [] then pipeline query search chunks service
      else ([], Idle))"

section \<open>Auxiliary notions\<close>

text \<open>A stand-in for the embedding model and the index: the same row for every query.\<close>

definition fixed_search :: "real list \<times> int list \<Rightarrow> searcher" where
  "fixed_search row query = row"

text \<open>
  The search marks a missing neighbour by the identifier \<open>-1\<close>, and the loop of
  \<open>retrieve\<close> skips such an entry. The search returns no neighbours when every
  identifier of the row is \<open>-1\<close>, the empty row included.
\<close>

definition no_neighbours :: "real list \<times> int list \<Rightarrow> bool" where
  "no_neighbours row = list_all (\<lambda>idx. idx = - 1) (snd row)"

text \<open>
  The search on an empty index: none of the \<open>TOP_K\<close> entries of the row is a
  neighbour; each has the identifier \<open>-1\<close> and the lowest single-precision value as
  its score.
\<close>

definition empty_index_search :: searcher where
  "empty_index_search =
     fixed_search
       (replicate TOP_K (- 340282346638528859811704183484516925440), replicate TOP_K (- 1))"

text \<open>The entries of the row that the loop of \<open>retrieve\<close> does not skip.\<close>

definition kept :: "real \<times> int \<Rightarrow> bool" where
  "kept r = (snd r \<noteq> - 1 \<and> \<not> fst r < MIN_SCORE)"

text \<open>
  A stand-in for the generation service: the same outcome for every request.
\<close>

definition fixed_reply :: "http_outcome \<Rightarrow> generator" where
  "fixed_reply outcome query context = outcome"

text \<open>A small chunk store, two searches on it, a retrieved passage and an answer.\<close>

definition example_chunks :: "item list" where
  "example_chunks =
     [\<lparr>chunk = ''Sartre speaks of abandonment.'', source = ''sartre.pdf'', page = 3\<rparr>,
      \<lparr>chunk = ''Man is condemned to be free.'', source = ''sartre.pdf'', page = 4\<rparr>]"

definition example_search :: searcher where
  "example_search = fixed_search ([0.5, 0.1], [0, 1])"

definition low_search :: searcher where
  "low_search = fixed_search ([0.1], [0])"

definition example_passage :: passage where
  "example_passage =
     \<lparr>chunk = ''Sartre speaks of abandonment.'', source = ''sartre.pdf'', page = 3, score = 0.5\<rparr>"

definition example_answer :: string where
  "example_answer = ''Abandonment means that we ourselves decide our being.''"

text \<open>
  A passage whose snippet has 750 characters: a chunk of 738 characters, within the chunk
  size 800 of \<open>ingest.py\<close>, after a tag of 12 characters.
\<close>

definition full_passage :: passage where
  "full_passage =
     \<lparr>chunk = replicate 738 CHR ''x'', source = ''a.pdf'', page = 1, score = 0.5\<rparr>"

text \<open>A passage with the words faith and freedom, without the word bad.\<close>

definition faith_passage :: passage where
  "faith_passage =
     \<lparr>chunk = ''Faith and freedom.'', source = ''sartre.pdf'', page = 7, score = 0.5\<rparr>"

section \<open>The support verifier in the words of the specification\<close>

text \<open>
  An alphabetic token of a string: a run of at least three letters that no letter
  precedes and no letter follows.
\<close>

definition is_token :: "string \<Rightarrow> string \<Rightarrow> bool" where
  "is_token t s =
     (\<exists>pre post. s = pre @ t @ post \<and> 3 \<le> length t \<and> list_all is_alpha t \<and>
        (pre = [] \<or> \<not> is_alpha (last pre)) \<and> (post = [] \<or> \<not> is_alpha (hd post)))"

text \<open>The content terms of a query: the tokens of its lower-cased text that are no stopwords.\<close>

definition content_terms :: "string \<Rightarrow> string set" where
  "content_terms query = {t. is_token t (str_lower query)} - set STOPWORDS"

text \<open>
  The verdict as the specification words it: there is a content term, and at least one of
  the content terms (two, when there are more than four) occurs in the lower-cased text of
  the chunks, which are joined by single spaces.
\<close>

definition supported_spec :: "string \<Rightarrow> passage list \<Rightarrow> bool" where
  "supported_spec query passages =
     (let terms = content_terms query;
          ctx = str_lower (join '' '' (map chunk passages));
          found = {t \<in> terms. sublist t ctx}
      in terms \<noteq> {} \<and> (if card terms \<le> 4 then 1 else 2) \<le> card found)"

section \<open>Character tables\<close>

text \<open>The character classes on the characters of the example queries.\<close>

lemma is_word_table:
  "is_word CHR ''a''" "is_word CHR ''b''" "is_word CHR ''c''"
  "is_word CHR ''d''" "is_word CHR ''e''" "is_word CHR ''f''"
  "is_word CHR ''g''" "is_word CHR ''h''" "is_word CHR ''i''"
  "is_word CHR ''j''" "is_word CHR ''k''" "is_word CHR ''l''"
  "is_word CHR ''m''" "is_word CHR ''n''" "is_word CHR ''o''"
  "is_word CHR ''p''" "is_word CHR ''q''" "is_word CHR ''r''"
  "is_word CHR ''s''" "is_word CHR ''t''" "is_word CHR ''u''"
  "is_word CHR ''v''" "is_word CHR ''w''" "is_word CHR ''x''"
  "is_word CHR ''y''" "is_word CHR ''z''" "is_word CHR ''A''"
  "is_word CHR ''B''" "is_word CHR ''C''" "is_word CHR ''D''"
  "is_word CHR ''E''" "is_word CHR ''F''" "is_word CHR ''G''"
  "is_word CHR ''H''" "is_word CHR ''I''" "is_word CHR ''J''"
  "is_word CHR ''K''" "is_word CHR ''L''" "is_word CHR ''M''"
  "is_word CHR ''N''" "is_word CHR ''O''" "is_word CHR ''P''"
  "is_word CHR ''Q''" "is_word CHR ''R''" "is_word CHR ''S''"
  "is_word CHR ''T''" "is_word CHR ''U''" "is_word CHR ''V''"
  "is_word CHR ''W''" "is_word CHR ''X''" "is_word CHR ''Y''"
  "is_word CHR ''Z''" "\<not> is_word CHR '' ''" "\<not> is_word CHR ''?''"
  "\<not> is_word CHR ''.''" "\<not> is_word CHR ''-''"
  by (simp_all add: is_word_def in_range_def)

lemma is_alpha_table:
  "is_alpha CHR ''a''" "is_alpha CHR ''b''" "is_alpha CHR ''c''"
  "is_alpha CHR ''d''" "is_alpha CHR ''e''" "is_alpha CHR ''f''"
  "is_alpha CHR ''g''" "is_alpha CHR ''h''" "is_alpha CHR ''i''"
  "is_alpha CHR ''j''" "is_alpha CHR ''k''" "is_alpha CHR ''l''"
  "is_alpha CHR ''m''" "is_alpha CHR ''n''" "is_alpha CHR ''o''"
  "is_alpha CHR ''p''" "is_alpha CHR ''q''" "is_alpha CHR ''r''"
  "is_alpha CHR ''s''" "is_alpha CHR ''t''" "is_alpha CHR ''u''"
  "is_alpha CHR ''v''" "is_alpha CHR ''w''" "is_alpha CHR ''x''"
  "is_alpha CHR ''y''" "is_alpha CHR ''z''" "is_alpha CHR ''A''"
  "is_alpha CHR ''B''" "is_alpha CHR ''C''" "is_alpha CHR ''D''"
  "is_alpha CHR ''E''" "is_alpha CHR ''F''" "is_alpha CHR ''G''"
  "is_alpha CHR ''H''" "is_alpha CHR ''I''" "is_alpha CHR ''J''"
  "is_alpha CHR ''K''" "is_alpha CHR ''L''" "is_alpha CHR ''M''"
  "is_alpha CHR ''N''" "is_alpha CHR ''O''" "is_alpha CHR ''P''"
  "is_alpha CHR ''Q''" "is_alpha CHR ''R''" "is_alpha CHR ''S''"
  "is_alpha CHR ''T''" "is_alpha CHR ''U''" "is_alpha CHR ''V''"
  "is_alpha CHR ''W''" "is_alpha CHR ''X''" "is_alpha CHR ''Y''"
  "is_alpha CHR ''Z''" "\<not> is_alpha CHR '' ''" "\<not> is_alpha CHR ''?''"
  "\<not> is_alpha CHR ''.''" "\<not> is_alpha CHR ''-''"
  by (simp_all add: is_alpha_def in_range_def)

lemma is_space_table:
  "\<not> is_space CHR ''a''" "\<not> is_space CHR ''b''" "\<not> is_space CHR ''c''"
  "\<not> is_space CHR ''d''" "\<not> is_space CHR ''e''" "\<not> is_space CHR ''f''"
  "\<not> is_space CHR ''g''" "\<not> is_space CHR ''h''" "\<not> is_space CHR ''i''"
  "\<not> is_space CHR ''j''" "\<not> is_space CHR ''k''" "\<not> is_space CHR ''l''"
  "\<not> is_space CHR ''m''" "\<not> is_space CHR ''n''" "\<not> is_space CHR ''o''"
  "\<not> is_space CHR ''p''" "\<not> is_space CHR ''q''" "\<not> is_space CHR ''r''"
  "\<not> is_space CHR ''s''" "\<not> is_space CHR ''t''" "\<not> is_space CHR ''u''"
  "\<not> is_space CHR ''v''" "\<not> is_space CHR ''w''" "\<not> is_space CHR ''x''"
  "\<not> is_space CHR ''y''" "\<not> is_space CHR ''z''" "\<not> is_space CHR ''A''"
  "\<not> is_space CHR ''B''" "\<not> is_space CHR ''C''" "\<not> is_space CHR ''D''"
  "\<not> is_space CHR ''E''" "\<not> is_space CHR ''F''" "\<not> is_space CHR ''G''"
  "\<not> is_space CHR ''H''" "\<not> is_space CHR ''I''" "\<not> is_space CHR ''J''"
  "\<not> is_space CHR ''K''" "\<not> is_space CHR ''L''" "\<not> is_space CHR ''M''"
  "\<not> is_space CHR ''N''" "\<not> is_space CHR ''O''" "\<not> is_space CHR ''P''"
  "\<not> is_space CHR ''Q''" "\<not> is_space CHR ''R''" "\<not> is_space CHR ''S''"
  "\<not> is_space CHR ''T''" "\<not> is_space CHR ''U''" "\<not> is_space CHR ''V''"
  "\<not> is_space CHR ''W''" "\<not> is_space CHR ''X''" "\<not> is_space CHR ''Y''"
  "\<not> is_space CHR ''Z''" "is_space CHR '' ''" "\<not> is_space CHR ''?''"
  "\<not> is_space CHR ''.''" "\<not> is_space CHR ''-''"
  by (simp_all add: is_space_def in_range_def)

lemma lower_char_table:
  "lower_char CHR ''a'' = CHR ''a''" "lower_char CHR ''b'' = CHR ''b''" "lower_char CHR ''c'' = CHR ''c''"
  "lower_char CHR ''d'' = CHR ''d''" "lower_char CHR ''e'' = CHR ''e''" "lower_char CHR ''f'' = CHR ''f''"
  "lower_char CHR ''g'' = CHR ''g''" "lower_char CHR ''h'' = CHR ''h''" "lower_char CHR ''i'' = CHR ''i''"
  "lower_char CHR ''j'' = CHR ''j''" "lower_char CHR ''k'' = CHR ''k''" "lower_char CHR ''l'' = CHR ''l''"
  "lower_char CHR ''m'' = CHR ''m''" "lower_char CHR ''n'' = CHR ''n''" "lower_char CHR ''o'' = CHR ''o''"
  "lower_char CHR ''p'' = CHR ''p''" "lower_char CHR ''q'' = CHR ''q''" "lower_char CHR ''r'' = CHR ''r''"
  "lower_char CHR ''s'' = CHR ''s''" "lower_char CHR ''t'' = CHR ''t''" "lower_char CHR ''u'' = CHR ''u''"
  "lower_char CHR ''v'' = CHR ''v''" "lower_char CHR ''w'' = CHR ''w''" "lower_char CHR ''x'' = CHR ''x''"
  "lower_char CHR ''y'' = CHR ''y''" "lower_char CHR ''z'' = CHR ''z''" "lower_char CHR ''A'' = CHR ''a''"
  "lower_char CHR ''B'' = CHR ''b''" "lower_char CHR ''C'' = CHR ''c''" "lower_char CHR ''D'' = CHR ''d''"
  "lower_char CHR ''E'' = CHR ''e''" "lower_char CHR ''F'' = CHR ''f''" "lower_char CHR ''G'' = CHR ''g''"
  "lower_char CHR ''H'' = CHR ''h''" "lower_char CHR ''I'' = CHR ''i''" "lower_char CHR ''J'' = CHR ''j''"
  "lower_char CHR ''K'' = CHR ''k''" "lower_char CHR ''L'' = CHR ''l''" "lower_char CHR ''M'' = CHR ''m''"
  "lower_char CHR ''N'' = CHR ''n''" "lower_char CHR ''O'' = CHR ''o''" "lower_char CHR ''P'' = CHR ''p''"
  "lower_char CHR ''Q'' = CHR ''q''" "lower_char CHR ''R'' = CHR ''r''" "lower_char CHR ''S'' = CHR ''s''"
  "lower_char CHR ''T'' = CHR ''t''" "lower_char CHR ''U'' = CHR ''u''" "lower_char CHR ''V'' = CHR ''v''"
  "lower_char CHR ''W'' = CHR ''w''" "lower_char CHR ''X'' = CHR ''x''" "lower_char CHR ''Y'' = CHR ''y''"
  "lower_char CHR ''Z'' = CHR ''z''" "lower_char CHR '' '' = CHR '' ''" "lower_char CHR ''?'' = CHR ''?''"
  "lower_char CHR ''.'' = CHR ''.''" "lower_char CHR ''-'' = CHR ''-''"
  by (simp_all add: lower_char_def in_range_def char_of_def bit_0)


lemmas char_tables = is_word_table is_alpha_table is_space_table lower_char_table

lemmas topic_gate_eval =
  has_banned_terms_def in_allowed_domain_def BANNED_QUERY_PATTERNS_def
  ALLOWED_TOPIC_PATTERNS_def bounded_def hyphen_or_space_def re_search_def boundary_def
  str_lower_def char_tables

section \<open>Properties of the topic gate\<close>

lemma has_banned_terms_iff:
  "has_banned_terms query \<longleftrightarrow> (\<exists>p \<in> set BANNED_QUERY_PATTERNS. re_search p (str_lower query))"
  by (simp add: has_banned_terms_def list_ex_iff)

lemma in_allowed_domain_iff:
  "in_allowed_domain query \<longleftrightarrow> (\<exists>p \<in> set ALLOWED_TOPIC_PATTERNS. re_search p (str_lower query))"
  by (simp add: in_allowed_domain_def list_ex_iff)

lemma cope_query_banned:
  "has_banned_terms ''How do I cope with anxiety using existentialism?''"
  by (simp add: topic_gate_eval)

lemma plato_query_not_allowed: "\<not> in_allowed_domain ''Who was Plato?''"
  by (simp add: topic_gate_eval)

lemma plato_query_not_banned: "\<not> has_banned_terms ''Who was Plato?''"
  by (simp add: topic_gate_eval)

text \<open>
  Claim C2: a query that matches a banned-term pattern, on its lower-cased text, is refused
  by \<open>should_refuse_query\<close> whether passages are given or not and whatever they contain.
\<close>

theorem banned_query_refused:
  assumes "\<exists>p \<in> set BANNED_QUERY_PATTERNS. re_search p (str_lower query)"
  shows "should_refuse_query query passages"
  using assms by (simp add: should_refuse_query_def has_banned_terms_iff)

theorem banned_query_refused_witness:
  "(\<exists>p \<in> set BANNED_QUERY_PATTERNS.
      re_search p (str_lower ''How do I cope with anxiety using existentialism?''))
   \<and> should_refuse_query ''How do I cope with anxiety using existentialism?'' None
   \<and> should_refuse_query ''How do I cope with anxiety using existentialism?''
        (Some [\<lparr>chunk = ''To cope with anxiety is to exist.'', source = ''a.pdf'', page = 1,
                score = 0.9\<rparr>])"
proof -
  have h: "\<exists>p \<in> set BANNED_QUERY_PATTERNS.
      re_search p (str_lower ''How do I cope with anxiety using existentialism?'')"
    using cope_query_banned by (simp only: has_banned_terms_iff)
  show ?thesis
    using h banned_query_refused [OF h, of None]
      banned_query_refused [OF h, of "Some [\<lparr>chunk = ''To cope with anxiety is to exist.'',
        source = ''a.pdf'', page = 1, score = 0.9\<rparr>]"]
    by blast
qed

text \<open>
  Claim C3: a query that matches no allowed-domain pattern, on its lower-cased text, is
  refused by \<open>should_refuse_query\<close>, without passages and with any passages.
\<close>

theorem out_of_domain_query_refused:
  assumes "\<forall>p \<in> set ALLOWED_TOPIC_PATTERNS. \<not> re_search p (str_lower query)"
  shows "should_refuse_query query None \<and> should_refuse_query query (Some passages)"
  using assms by (simp add: should_refuse_query_def in_allowed_domain_iff)

theorem out_of_domain_query_refused_witness:
  "\<not> in_allowed_domain ''Who was Plato?''
   \<and> \<not> has_banned_terms ''Who was Plato?''
   \<and> should_refuse_query ''Who was Plato?'' None
   \<and> should_refuse_query ''Who was Plato?''
        (Some [\<lparr>chunk = ''Plato was a philosopher.'', source = ''a.pdf'', page = 1, score = 0.9\<rparr>])"
proof -
  have h: "\<forall>p \<in> set ALLOWED_TOPIC_PATTERNS. \<not> re_search p (str_lower ''Who was Plato?'')"
    using plato_query_not_allowed by (simp only: in_allowed_domain_iff) blast
  show ?thesis
    using plato_query_not_allowed plato_query_not_banned
      out_of_domain_query_refused [OF h, of "[\<lparr>chunk = ''Plato was a philosopher.'',
        source = ''a.pdf'', page = 1, score = 0.9\<rparr>]"]
    by blast
qed

section \<open>Properties of retrieval\<close>

lemma retrieve_loop_scores:
  "retrieve_loop rows chunks acc = Inr res \<Longrightarrow>
   map score res = map score acc @ map fst (filter kept rows)"
proof (induction rows arbitrary: acc)
  case Nil
  then show ?case by simp
next
  case (Cons r rows)
  obtain sc idx where r: "r = (sc, idx)" by (cases r)
  show ?case
  proof (cases "idx = - 1 \<or> sc < MIN_SCORE")
    case True
    with Cons r show ?thesis by (auto simp: kept_def split: if_splits)
  next
    case False
    with Cons.prems r obtain it where
      it: "list_index chunks idx = Inr it" and
      rest: "retrieve_loop rows chunks
               (acc @ [\<lparr>chunk = chunk it, source = source it, page = page it, score = sc\<rparr>]) = Inr res"
      by (auto split: sum.splits)
    from Cons.IH [OF rest] False r show ?thesis by (simp add: kept_def)
  qed
qed

lemma retrieve_loop_skips:
  "list_all (\<lambda>r. \<not> kept r) rows \<Longrightarrow> retrieve_loop rows chunks acc = Inr acc"
  by (induction rows arbitrary: acc) (auto simp: kept_def)

lemma retrieve_loop_returns:
  "list_all (\<lambda>r. kept r \<longrightarrow> - int (length chunks) \<le> snd r \<and> snd r < int (length chunks)) rows \<Longrightarrow>
   \<exists>res. retrieve_loop rows chunks acc = Inr res"
proof (induction rows arbitrary: acc)
  case Nil
  then show ?case by simp
next
  case (Cons r rows)
  obtain sc idx where r: "r = (sc, idx)" by (cases r)
  show ?case
  proof (cases "kept r")
    case False
    with Cons r show ?thesis by (auto simp: kept_def)
  next
    case True
    with Cons.prems r have "\<exists>it. list_index chunks idx = Inr it"
      by (auto simp: list_index_def)
    with Cons True r show ?thesis by (auto simp: kept_def)
  qed
qed

lemma retrieve_Inr:
  assumes "retrieve query search chunks = Inr (ranked, best)"
  shows "retrieve_loop (zip (fst (search query)) (snd (search query))) chunks [] = Inr ranked"
    and "best = (if fst (search query) = [] then 0 else hd (fst (search query)))"
  using assms
  by (auto simp: retrieve_def Let_def hd_conv_nth split: prod.splits sum.splits if_splits)

text \<open>
  Claim C5: every passage of the ranked list that \<open>retrieve\<close> returns has a score of
  at least the minimum score 0.25.
\<close>

theorem retrieved_passages_meet_threshold:
  assumes "retrieve query search chunks = Inr (ranked, best)"
  shows "(\<forall>p \<in> set ranked. MIN_SCORE \<le> score p) \<and> MIN_SCORE = 0.25"
proof -
  from retrieve_Inr(1) [OF assms]
  have "map score ranked = map fst (filter kept (zip (fst (search query)) (snd (search query))))"
    by (auto dest: retrieve_loop_scores)
  then have "set (map score ranked) \<subseteq> fst ` {r. kept r}"
    by auto
  then have "\<forall>p \<in> set ranked. MIN_SCORE \<le> score p"
    by (auto simp: kept_def)
  then show ?thesis by (simp add: MIN_SCORE_def)
qed


lemmas retrieve_eval = retrieve_def fixed_search_def MIN_SCORE_def list_index_def kept_def

theorem retrieved_passages_meet_threshold_witness:
  "retrieve ''What does Sartre mean by abandonment?''
     (fixed_search ([0.9, 0.1, 0.3, 0.4], [0, 1, 1, - 1]))
     [\<lparr>chunk = ''Sartre speaks of abandonment.'', source = ''sartre.pdf'', page = 3\<rparr>,
      \<lparr>chunk = ''Man is condemned to be free.'', source = ''sartre.pdf'', page = 4\<rparr>]
   = Inr ([\<lparr>chunk = ''Sartre speaks of abandonment.'', source = ''sartre.pdf'', page = 3,
             score = 0.9\<rparr>,
           \<lparr>chunk = ''Man is condemned to be free.'', source = ''sartre.pdf'', page = 4,
             score = 0.3\<rparr>], 0.9)
   \<and> list_all (\<lambda>p. MIN_SCORE \<le> score p)
       [\<lparr>chunk = ''Sartre speaks of abandonment.'', source = ''sartre.pdf'', page = 3,
          score = 0.9\<rparr>,
        \<lparr>chunk = ''Man is condemned to be free.'', source = ''sartre.pdf'', page = 4,
          score = 0.3\<rparr>]"
proof -
  have h: "retrieve ''What does Sartre mean by abandonment?''
     (fixed_search ([0.9, 0.1, 0.3, 0.4], [0, 1, 1, - 1]))
     [\<lparr>chunk = ''Sartre speaks of abandonment.'', source = ''sartre.pdf'', page = 3\<rparr>,
      \<lparr>chunk = ''Man is condemned to be free.'', source = ''sartre.pdf'', page = 4\<rparr>]
   = Inr ([\<lparr>chunk = ''Sartre speaks of abandonment.'', source = ''sartre.pdf'', page = 3,
             score = 0.9\<rparr>,
           \<lparr>chunk = ''Man is condemned to be free.'', source = ''sartre.pdf'', page = 4,
             score = 0.3\<rparr>], 0.9)"
    by (simp add: retrieve_eval)
  show ?thesis
    using h retrieved_passages_meet_threshold [OF h] by simp
qed

text \<open>
  When the search returns no neighbours, no passage is ranked, whatever the scores of the
  row are.
\<close>

lemma no_neighbours_ranked_empty:
  assumes "no_neighbours (search query)"
  shows "\<exists>best. retrieve query search chunks = Inr ([], best)"
proof -
  obtain scores ids where row: "search query = (scores, ids)"
    by (cases "search query")
  with assms have "list_all (\<lambda>r. \<not> kept r) (zip scores ids)"
    by (auto simp: no_neighbours_def list_all_iff kept_def dest: set_zip_rightD)
  then have "retrieve_loop (zip scores ids) chunks [] = Inr []"
    by (rule retrieve_loop_skips)
  with row show ?thesis by (simp add: retrieve_def)
qed

text \<open>
  Claim C6 says that the best score is 0.0 and the ranked list is empty when the index
  search returns no neighbours. The default 0.0 is taken for the empty row only: on the row
  of an empty index, where every entry is marked as a missing neighbour, \<open>retrieve\<close>
  returns the empty ranked list with the padding score of the first entry as the best
  score.
\<close>

theorem best_score_on_empty_index:
  "no_neighbours (empty_index_search ''What does Sartre mean by abandonment?'')
   \<and> retrieve ''What does Sartre mean by abandonment?'' empty_index_search []
       = Inr ([], - 340282346638528859811704183484516925440)
   \<and> retrieve ''What does Sartre mean by abandonment?'' empty_index_search []
       \<noteq> Inr ([], 0)"
  by (simp add: empty_index_search_def retrieve_eval no_neighbours_def TOP_K_def
      eval_nat_numeral)

section \<open>Properties of the pipeline\<close>

lemma str_strip_unchanged:
  assumes "s \<noteq> []" "\<not> is_space (hd s)" "\<not> is_space (last s)"
  shows "str_strip s = s"
proof -
  from assms have a: "dropWhile is_space s = s"
    by (cases s) auto
  from assms have "rev s \<noteq> []" "\<not> is_space (hd (rev s))"
    by (simp_all add: hd_rev)
  then have "dropWhile is_space (rev s) = rev s"
    by (cases "rev s") auto
  with a show ?thesis by (simp add: str_strip_def)
qed

lemma refusal_text_stripped: "str_strip REFUSAL_TEXT = REFUSAL_TEXT"
  by (rule str_strip_unchanged) (simp_all add: REFUSAL_TEXT_def char_tables)

lemma prompt_refusal_stripped: "str_strip SYSTEM_RULES_refusal = SYSTEM_RULES_refusal"
  by (rule str_strip_unchanged) (simp_all add: SYSTEM_RULES_refusal_def char_tables)

lemma prompt_refusal_differs: "SYSTEM_RULES_refusal \<noteq> REFUSAL_TEXT"
  by (simp add: SYSTEM_RULES_refusal_def REFUSAL_TEXT_def)

lemma sartre_query_not_blank: "str_strip ''What does Sartre mean by abandonment?'' \<noteq> []"
  by (simp add: str_strip_unchanged char_tables)

lemma sartre_query_not_banned: "\<not> has_banned_terms ''What does Sartre mean by abandonment?''"
  by (simp add: topic_gate_eval)

lemma sartre_query_allowed: "in_allowed_domain ''What does Sartre mean by abandonment?''"
  by (simp add: topic_gate_eval)

lemma sartre_query_keywords:
  "keywords_of ''What does Sartre mean by abandonment?'' = [''sartre'', ''mean'', ''abandonment'']"
  by (simp add: keywords_of_def findall_alpha3_def emit_def STOPWORDS_def str_lower_def char_tables)

lemma sartre_query_supported:
  "query_supported_by_context ''What does Sartre mean by abandonment?'' [example_passage]"
  by (simp add: query_supported_by_context_def sartre_query_keywords example_passage_def
      str_lower_def char_tables)

lemma sartre_query_passes_topic_gate:
  "\<not> should_refuse_query ''What does Sartre mean by abandonment?'' None"
  by (simp add: should_refuse_query_def sartre_query_not_banned sartre_query_allowed)

lemma sartre_query_passes_support_gate:
  "\<not> should_refuse_query ''What does Sartre mean by abandonment?'' (Some [example_passage])"
  by (simp add: should_refuse_query_def sartre_query_not_banned sartre_query_allowed
      sartre_query_supported)

lemma sartre_retrieve:
  "retrieve ''What does Sartre mean by abandonment?'' example_search
     example_chunks = Inr ([example_passage], 0.5)"
  by (simp add: retrieve_eval example_search_def example_chunks_def example_passage_def)

lemma sartre_retrieve_low:
  "retrieve ''What does Sartre mean by abandonment?'' low_search
     example_chunks = Inr ([], 0.1)"
  by (simp add: retrieve_eval low_search_def example_chunks_def)

lemma should_refuse_with_passages:
  "\<not> should_refuse_query query None \<Longrightarrow>
   should_refuse_query query (Some passages) = (\<not> query_supported_by_context query passages)"
  by (cases "has_banned_terms query"; cases "in_allowed_domain query")
    (simp_all add: should_refuse_query_def)

lemma pipeline_topic_refusal:
  "should_refuse_query query None \<Longrightarrow>
   pipeline query search chunks service = ([ShouldRefuseQuery None], Refused TopicGate refuse)"
  by (simp add: pipeline_def)

lemma pipeline_retrieve_failure:
  "\<not> should_refuse_query query None \<Longrightarrow> retrieve query search chunks = Inl e \<Longrightarrow>
   pipeline query search chunks service = ([ShouldRefuseQuery None, Retrieve], Failed e)"
  by (simp add: pipeline_def)

lemma pipeline_score_refusal:
  "\<not> should_refuse_query query None \<Longrightarrow> retrieve query search chunks = Inr (passages, best) \<Longrightarrow>
   best < MIN_SCORE \<or> passages = [] \<Longrightarrow>
   pipeline query search chunks service =
     ([ShouldRefuseQuery None, Retrieve], Refused ScoreGate refuse)"
  by (auto simp: pipeline_def)

lemma pipeline_support_refusal:
  "\<not> should_refuse_query query None \<Longrightarrow> retrieve query search chunks = Inr (passages, best) \<Longrightarrow>
   \<not> best < MIN_SCORE \<Longrightarrow> passages \<noteq> [] \<Longrightarrow> should_refuse_query query (Some passages) \<Longrightarrow>
   pipeline query search chunks service =
     ([ShouldRefuseQuery None, Retrieve, ShouldRefuseQuery (Some passages)],
      Refused SupportGate refuse)"
  by (simp add: pipeline_def)

lemma pipeline_generate:
  "\<not> should_refuse_query query None \<Longrightarrow> retrieve query search chunks = Inr (passages, best) \<Longrightarrow>
   \<not> best < MIN_SCORE \<Longrightarrow> passages \<noteq> [] \<Longrightarrow> \<not> should_refuse_query query (Some passages) \<Longrightarrow>
   pipeline query search chunks service =
     ([ShouldRefuseQuery None, Retrieve, ShouldRefuseQuery (Some passages), BuildContext,
       GenerateAnswer],
      case generate_answer service query (build_context passages) of
        Inl e \<Rightarrow> Failed e
      | Inr answer \<Rightarrow>
          if str_strip answer = str_strip refuse then Refused SelfRefusalGate refuse
          else Answered answer)"
  by (simp add: pipeline_def Let_def split: sum.splits)

lemma pipeline_answered:
  assumes "snd (pipeline query search chunks service) = Answered answer"
  shows "\<exists>passages best.
           \<not> should_refuse_query query None \<and>
           retrieve query search chunks = Inr (passages, best) \<and>
           MIN_SCORE \<le> best \<and> passages \<noteq> [] \<and>
           query_supported_by_context query passages \<and>
           generate_answer service query (build_context passages) = Inr answer \<and>
           str_strip answer \<noteq> str_strip REFUSAL_TEXT"
proof -
  have topic: "\<not> should_refuse_query query None"
    using assms by (auto simp: pipeline_topic_refusal)
  then obtain passages best where r: "retrieve query search chunks = Inr (passages, best)"
    using assms by (cases "retrieve query search chunks") (auto simp: pipeline_retrieve_failure)
  have sc: "\<not> best < MIN_SCORE" "passages \<noteq> []"
    using assms pipeline_score_refusal [OF topic r] by auto
  have sup: "\<not> should_refuse_query query (Some passages)"
    using assms pipeline_support_refusal [OF topic r sc] by auto
  from assms pipeline_generate [OF topic r sc sup]
  have "generate_answer service query (build_context passages) = Inr answer \<and>
        str_strip answer \<noteq> str_strip REFUSAL_TEXT"
    by (auto simp: refuse_def split: sum.splits if_splits)
  with topic r sc sup show ?thesis
    by (auto simp: should_refuse_with_passages)
qed

lemma pipeline_refused:
  assumes "should_refuse_query query None \<or>
           (\<exists>passages best. retrieve query search chunks = Inr (passages, best) \<and>
              (best < MIN_SCORE \<or> passages = [] \<or>
               \<not> query_supported_by_context query passages \<or>
               (\<exists>answer. generate_answer service query (build_context passages) = Inr answer \<and>
                  str_strip answer = str_strip REFUSAL_TEXT)))"
  shows "\<exists>g. snd (pipeline query search chunks service) = Refused g REFUSAL_TEXT"
proof (cases "should_refuse_query query None")
  case True
  then show ?thesis by (simp add: pipeline_topic_refusal refuse_def)
next
  case topic: False
  with assms obtain passages best where
    r: "retrieve query search chunks = Inr (passages, best)" and
    f: "best < MIN_SCORE \<or> passages = [] \<or> \<not> query_supported_by_context query passages \<or>
        (\<exists>answer. generate_answer service query (build_context passages) = Inr answer \<and>
           str_strip answer = str_strip REFUSAL_TEXT)"
    by blast
  show ?thesis
  proof (cases "best < MIN_SCORE \<or> passages = []")
    case True
    from pipeline_score_refusal [OF topic r True] show ?thesis by (simp add: refuse_def)
  next
    case sc: False
    show ?thesis
    proof (cases "should_refuse_query query (Some passages)")
      case True
      with pipeline_support_refusal [OF topic r] sc show ?thesis by (simp add: refuse_def)
    next
      case sup: False
      with topic have "query_supported_by_context query passages"
        by (simp add: should_refuse_with_passages)
      with f sc obtain answer where
        "generate_answer service query (build_context passages) = Inr answer"
        "str_strip answer = str_strip REFUSAL_TEXT"
        by blast
      with pipeline_generate [OF topic r _ _ sup] sc show ?thesis by (simp add: refuse_def)
    qed
  qed
qed

text \<open>
  Claim C1: the pipeline shows an answer only if the topic gate does not refuse the query,
  the best score is at least the minimum score and the ranked list is not empty, the
  support verifier accepts the query on the retrieved passages, and the stripped output of
  the generator differs from the stripped refusal text; when one of the four gates fails,
  the pipeline shows the canonical refusal.
\<close>

theorem answered_only_after_all_gates:
  "(snd (ask pressed query search chunks service) = Answered answer \<longrightarrow>
      (\<exists>passages best.
         \<not> should_refuse_query query None \<and>
         retrieve query search chunks = Inr (passages, best) \<and>
         MIN_SCORE \<le> best \<and> passages \<noteq> [] \<and>
         query_supported_by_context query passages \<and>
         generate_answer service query (build_context passages) = Inr answer \<and>
         str_strip answer \<noteq> str_strip REFUSAL_TEXT))
   \<and> (should_refuse_query query None \<or>
        (\<exists>passages best. retrieve query search chunks = Inr (passages, best) \<and>
           (best < MIN_SCORE \<or> passages = [] \<or>
            \<not> query_supported_by_context query passages \<or>
            (\<exists>answer. generate_answer service query (build_context passages) = Inr answer \<and>
               str_strip answer = str_strip REFUSAL_TEXT)))
        \<longrightarrow> (\<exists>g. snd (pipeline query search chunks service) = Refused g REFUSAL_TEXT))"
proof (intro conjI impI)
  assume a: "snd (ask pressed query search chunks service) = Answered answer"
  then have "snd (pipeline query search chunks service) = Answered answer"
    by (auto simp: ask_def split: if_splits)
  then show "\<exists>passages best.
         \<not> should_refuse_query query None \<and>
         retrieve query search chunks = Inr (passages, best) \<and>
         MIN_SCORE \<le> best \<and> passages \<noteq> [] \<and>
         query_supported_by_context query passages \<and>
         generate_answer service query (build_context passages) = Inr answer \<and>
         str_strip answer \<noteq> str_strip REFUSAL_TEXT"
    by (rule pipeline_answered)
next
  assume "should_refuse_query query None \<or>
        (\<exists>passages best. retrieve query search chunks = Inr (passages, best) \<and>
           (best < MIN_SCORE \<or> passages = [] \<or>
            \<not> query_supported_by_context query passages \<or>
            (\<exists>answer. generate_answer service query (build_context passages) = Inr answer \<and>
               str_strip answer = str_strip REFUSAL_TEXT)))"
  then show "\<exists>g. snd (pipeline query search chunks service) = Refused g REFUSAL_TEXT"
    by (rule pipeline_refused)
qed

lemma example_answer_stripped: "str_strip example_answer = example_answer"
  by (rule str_strip_unchanged) (simp_all add: example_answer_def char_tables)

lemma example_answer_differs: "example_answer \<noteq> REFUSAL_TEXT"
  by (simp add: example_answer_def REFUSAL_TEXT_def)

lemma generate_answer_fixed_reply:
  "generate_answer (fixed_reply (Response 200 (Some text))) query context = Inr (str_strip text)"
  "generate_answer (fixed_reply Timeout) query context = Inl RequestTimeout"
  "generate_answer (fixed_reply (Response 503 body)) query context = Inl (HTTPError 503)"
  by (simp_all add: generate_answer_def fixed_reply_def)

lemma sartre_pipeline:
  "pipeline ''What does Sartre mean by abandonment?'' example_search
     example_chunks service =
   ([ShouldRefuseQuery None, Retrieve, ShouldRefuseQuery (Some [example_passage]), BuildContext,
     GenerateAnswer],
    case generate_answer service ''What does Sartre mean by abandonment?''
           (build_context [example_passage]) of
      Inl e \<Rightarrow> Failed e
    | Inr answer \<Rightarrow>
        if str_strip answer = str_strip refuse then Refused SelfRefusalGate refuse
        else Answered answer)"
  by (rule pipeline_generate [OF sartre_query_passes_topic_gate sartre_retrieve _ _
        sartre_query_passes_support_gate])
    (simp_all add: MIN_SCORE_def)

theorem answered_only_after_all_gates_witness:
  "snd (ask True ''What does Sartre mean by abandonment?'' example_search
          example_chunks (fixed_reply (Response 200 (Some example_answer))))
     = Answered example_answer
   \<and> (\<exists>passages best.
         \<not> should_refuse_query ''What does Sartre mean by abandonment?'' None \<and>
         retrieve ''What does Sartre mean by abandonment?'' example_search
           example_chunks = Inr (passages, best) \<and>
         MIN_SCORE \<le> best \<and> passages \<noteq> [] \<and>
         query_supported_by_context ''What does Sartre mean by abandonment?'' passages \<and>
         generate_answer (fixed_reply (Response 200 (Some example_answer)))
           ''What does Sartre mean by abandonment?'' (build_context passages) = Inr example_answer \<and>
         str_strip example_answer \<noteq> str_strip REFUSAL_TEXT)
   \<and> (\<exists>g. snd (pipeline ''What does Sartre mean by abandonment?''
                 example_search example_chunks
                 (fixed_reply (Response 200 (Some REFUSAL_TEXT))))
          = Refused g REFUSAL_TEXT)"
proof -
  let ?q = "''What does Sartre mean by abandonment?''"
  let ?s = example_search
  have run: "snd (ask True ?q ?s example_chunks (fixed_reply (Response 200 (Some example_answer))))
     = Answered example_answer"
    by (simp add: ask_def sartre_query_not_blank sartre_pipeline generate_answer_fixed_reply
        example_answer_stripped refusal_text_stripped refuse_def example_answer_differs)
  have fail: "should_refuse_query ?q None \<or>
        (\<exists>passages best. retrieve ?q ?s example_chunks = Inr (passages, best) \<and>
           (best < MIN_SCORE \<or> passages = [] \<or>
            \<not> query_supported_by_context ?q passages \<or>
            (\<exists>answer. generate_answer (fixed_reply (Response 200 (Some REFUSAL_TEXT))) ?q
                        (build_context passages) = Inr answer \<and>
               str_strip answer = str_strip REFUSAL_TEXT)))"
  proof -
    have "retrieve ?q ?s example_chunks = Inr ([example_passage], 0.5) \<and>
          (\<exists>answer. generate_answer (fixed_reply (Response 200 (Some REFUSAL_TEXT))) ?q
                        (build_context [example_passage]) = Inr answer \<and>
             str_strip answer = str_strip REFUSAL_TEXT)"
      by (simp add: sartre_retrieve generate_answer_fixed_reply refusal_text_stripped)
    then show ?thesis by blast
  qed
  from answered_only_after_all_gates
    [where pressed = True and query = ?q and search = ?s and chunks = example_chunks
       and service = "fixed_reply (Response 200 (Some example_answer))"
       and answer = example_answer, THEN conjunct1, rule_format, OF run]
    answered_only_after_all_gates
    [where query = ?q and search = ?s and chunks = example_chunks
       and service = "fixed_reply (Response 200 (Some REFUSAL_TEXT))",
     THEN conjunct2, rule_format, OF fail]
    run
  show ?thesis by blast
qed

text \<open>
  Claim C8: when the query passes the topic gate and \<open>retrieve\<close> returns a best
  score below the minimum score or an empty ranked list, the pipeline refuses at the score
  check: after \<open>retrieve\<close> it calls neither \<open>should_refuse_query\<close> with the
  passages nor \<open>generate_answer\<close>.
\<close>

theorem low_score_refused_before_support_check:
  assumes "\<not> should_refuse_query query None"
    and "retrieve query search chunks = Inr (passages, best)"
    and "best < MIN_SCORE \<or> passages = []"
  shows "pipeline query search chunks service =
           ([ShouldRefuseQuery None, Retrieve], Refused ScoreGate REFUSAL_TEXT)
       \<and> ShouldRefuseQuery (Some passages) \<notin> set (fst (pipeline query search chunks service))
       \<and> GenerateAnswer \<notin> set (fst (pipeline query search chunks service))"
  using pipeline_score_refusal [OF assms] by (simp add: refuse_def)

theorem low_score_refused_before_support_check_witness:
  "\<not> should_refuse_query ''What does Sartre mean by abandonment?'' None
   \<and> retrieve ''What does Sartre mean by abandonment?'' low_search example_chunks
       = Inr ([], 0.1)
   \<and> pipeline ''What does Sartre mean by abandonment?'' low_search example_chunks
         (fixed_reply (Response 200 (Some example_answer)))
       = ([ShouldRefuseQuery None, Retrieve], Refused ScoreGate REFUSAL_TEXT)"
proof -
  have low: "(0.1 :: real) < MIN_SCORE \<or> ([] :: passage list) = []"
    by (simp add: MIN_SCORE_def)
  from low_score_refused_before_support_check
    [OF sartre_query_passes_topic_gate sartre_retrieve_low low]
    sartre_query_passes_topic_gate sartre_retrieve_low
  show ?thesis by blast
qed

text \<open>
  Claim C9 as stated fails for the statuses outside 200 to 299 that \<open>raise_for_status\<close>
  lets pass: a response with the status 302 and a body is returned as the generator's
  output, and the pipeline shows it as an answer, or as a refusal when the body is the
  refusal text.
\<close>

theorem unraised_status_counterexample:
  "generate_answer (fixed_reply (Response 302 (Some example_answer)))
     ''What does Sartre mean by abandonment?'' (build_context [example_passage])
     = Inr example_answer
   \<and> snd (pipeline ''What does Sartre mean by abandonment?'' example_search example_chunks
            (fixed_reply (Response 302 (Some example_answer))))
       = Answered example_answer
   \<and> generate_answer (fixed_reply (Response 302 (Some REFUSAL_TEXT)))
       ''What does Sartre mean by abandonment?'' (build_context [example_passage])
       = Inr REFUSAL_TEXT
   \<and> snd (pipeline ''What does Sartre mean by abandonment?'' example_search example_chunks
            (fixed_reply (Response 302 (Some REFUSAL_TEXT))))
       = Refused SelfRefusalGate REFUSAL_TEXT"
  by (simp add: sartre_pipeline generate_answer_def fixed_reply_def example_answer_stripped
      refusal_text_stripped refuse_def example_answer_differs)

text \<open>
  Claim C9, amended: when the request to the generation service times out or its response
  has a status from 400 to 599, \<open>generate_answer\<close> raises; the exception leaves the
  pipeline as a failure, and no refusal is shown in its place.
\<close>

theorem generator_fault_propagates:
  "(service query ctx = Timeout \<longrightarrow>
      generate_answer service query ctx = Inl RequestTimeout)
   \<and> (service query ctx = Response status body \<and> 400 \<le> status \<and> status < 600 \<longrightarrow>
      generate_answer service query ctx = Inl (HTTPError status))
   \<and> (\<not> should_refuse_query query None \<and>
       retrieve query search chunks = Inr (passages, best) \<and>
       MIN_SCORE \<le> best \<and> passages \<noteq> [] \<and>
       \<not> should_refuse_query query (Some passages) \<and>
       generate_answer service query (build_context passages) = Inl e \<longrightarrow>
       snd (pipeline query search chunks service) = Failed e \<and>
       snd (ask True query search chunks service) \<noteq> Refused g REFUSAL_TEXT)"
proof (intro conjI impI)
  assume "service query ctx = Timeout"
  then show "generate_answer service query ctx = Inl RequestTimeout"
    by (simp add: generate_answer_def)
next
  assume "service query ctx = Response status body \<and> 400 \<le> status \<and> status < 600"
  then show "generate_answer service query ctx = Inl (HTTPError status)"
    by (simp add: generate_answer_def)
next
  assume a: "\<not> should_refuse_query query None \<and>
       retrieve query search chunks = Inr (passages, best) \<and>
       MIN_SCORE \<le> best \<and> passages \<noteq> [] \<and>
       \<not> should_refuse_query query (Some passages) \<and>
       generate_answer service query (build_context passages) = Inl e"
  then have "pipeline query search chunks service =
     ([ShouldRefuseQuery None, Retrieve, ShouldRefuseQuery (Some passages), BuildContext,
       GenerateAnswer], Failed e)"
    using pipeline_generate [of query search chunks passages best service] by simp
  then show "snd (pipeline query search chunks service) = Failed e"
    and "snd (ask True query search chunks service) \<noteq> Refused g REFUSAL_TEXT"
    by (simp_all add: ask_def)
qed

theorem generator_fault_propagates_witness:
  "generate_answer (fixed_reply Timeout) ''What does Sartre mean by abandonment?''
     (build_context [example_passage]) = Inl RequestTimeout
   \<and> generate_answer (fixed_reply (Response 503 None)) ''What does Sartre mean by abandonment?''
       (build_context [example_passage]) = Inl (HTTPError 503)
   \<and> snd (pipeline ''What does Sartre mean by abandonment?'' example_search example_chunks
            (fixed_reply Timeout)) = Failed RequestTimeout
   \<and> snd (pipeline ''What does Sartre mean by abandonment?'' example_search example_chunks
            (fixed_reply (Response 503 None))) = Failed (HTTPError 503)"
proof -
  let ?q = "''What does Sartre mean by abandonment?''"
  let ?c = "build_context [example_passage]"
  have t: "fixed_reply Timeout ?q ?c = Timeout"
    and h: "fixed_reply (Response 503 None) ?q ?c = Response 503 None \<and>
            (400 :: nat) \<le> 503 \<and> (503 :: nat) < 600"
    by (simp_all add: fixed_reply_def)
  have best: "MIN_SCORE \<le> 0.5" and ne: "[example_passage] \<noteq> []"
    by (simp_all add: MIN_SCORE_def)
  note inst = generator_fault_propagates
    [where query = ?q and ctx = ?c and search = example_search and chunks = example_chunks
       and passages = "[example_passage]" and best = "0.5"]
  have g1: "generate_answer (fixed_reply Timeout) ?q ?c = Inl RequestTimeout"
    using inst [where service = "fixed_reply Timeout", THEN conjunct1] t by blast
  have g2: "generate_answer (fixed_reply (Response 503 None)) ?q ?c = Inl (HTTPError 503)"
    using inst [where service = "fixed_reply (Response 503 None)" and status = 503
        and body = None, THEN conjunct2, THEN conjunct1] h by blast
  have p1: "snd (pipeline ?q example_search example_chunks (fixed_reply Timeout))
      = Failed RequestTimeout"
    using inst [where service = "fixed_reply Timeout" and e = RequestTimeout,
        THEN conjunct2, THEN conjunct2]
      sartre_query_passes_topic_gate sartre_retrieve best ne sartre_query_passes_support_gate g1
    by blast
  have p2: "snd (pipeline ?q example_search example_chunks (fixed_reply (Response 503 None)))
      = Failed (HTTPError 503)"
    using inst [where service = "fixed_reply (Response 503 None)" and e = "HTTPError 503",
        THEN conjunct2, THEN conjunct2]
      sartre_query_passes_topic_gate sartre_retrieve best ne sartre_query_passes_support_gate g2
    by blast
  from g1 g2 p1 p2 show ?thesis by blast
qed

text \<open>
  Claim C10: the refusal sentence of the prompt differs from the canonical refusal text,
  so a generator that answers with exactly that sentence passes the self-refusal check
  and its output is shown as an answer.
\<close>

theorem prompt_refusal_surfaced_as_answer:
  "SYSTEM_RULES_refusal \<noteq> REFUSAL_TEXT
   \<and> str_strip SYSTEM_RULES_refusal \<noteq> str_strip refuse
   \<and> (\<not> should_refuse_query query None \<and>
       retrieve query search chunks = Inr (passages, best) \<and>
       MIN_SCORE \<le> best \<and> passages \<noteq> [] \<and>
       \<not> should_refuse_query query (Some passages) \<and>
       generate_answer service query (build_context passages) = Inr SYSTEM_RULES_refusal \<longrightarrow>
       snd (pipeline query search chunks service) = Answered SYSTEM_RULES_refusal)"
proof (intro conjI impI)
  show "SYSTEM_RULES_refusal \<noteq> REFUSAL_TEXT"
    by (rule prompt_refusal_differs)
  show ne: "str_strip SYSTEM_RULES_refusal \<noteq> str_strip refuse"
    by (simp add: refuse_def prompt_refusal_stripped refusal_text_stripped prompt_refusal_differs)
  assume "\<not> should_refuse_query query None \<and>
       retrieve query search chunks = Inr (passages, best) \<and>
       MIN_SCORE \<le> best \<and> passages \<noteq> [] \<and>
       \<not> should_refuse_query query (Some passages) \<and>
       generate_answer service query (build_context passages) = Inr SYSTEM_RULES_refusal"
  then show "snd (pipeline query search chunks service) = Answered SYSTEM_RULES_refusal"
    using pipeline_generate [of query search chunks passages best service] ne by simp
qed

theorem prompt_refusal_surfaced_as_answer_witness:
  "generate_answer (fixed_reply (Response 200 (Some SYSTEM_RULES_refusal)))
     ''What does Sartre mean by abandonment?'' (build_context [example_passage])
     = Inr SYSTEM_RULES_refusal
   \<and> snd (pipeline ''What does Sartre mean by abandonment?'' example_search example_chunks
            (fixed_reply (Response 200 (Some SYSTEM_RULES_refusal))))
       = Answered SYSTEM_RULES_refusal
   \<and> snd (pipeline ''What does Sartre mean by abandonment?'' example_search example_chunks
            (fixed_reply (Response 200 (Some REFUSAL_TEXT))))
       = Refused SelfRefusalGate REFUSAL_TEXT"
proof -
  let ?q = "''What does Sartre mean by abandonment?''"
  have g: "generate_answer (fixed_reply (Response 200 (Some SYSTEM_RULES_refusal))) ?q
             (build_context [example_passage]) = Inr SYSTEM_RULES_refusal"
    by (simp add: generate_answer_fixed_reply prompt_refusal_stripped)
  have best: "MIN_SCORE \<le> 0.5" and ne: "[example_passage] \<noteq> []"
    by (simp_all add: MIN_SCORE_def)
  have a: "snd (pipeline ?q example_search example_chunks
            (fixed_reply (Response 200 (Some SYSTEM_RULES_refusal))))
       = Answered SYSTEM_RULES_refusal"
    using prompt_refusal_surfaced_as_answer
      [where query = ?q and search = example_search and chunks = example_chunks
         and passages = "[example_passage]" and best = "0.5"
         and service = "fixed_reply (Response 200 (Some SYSTEM_RULES_refusal))",
       THEN conjunct2, THEN conjunct2]
      sartre_query_passes_topic_gate sartre_retrieve best ne sartre_query_passes_support_gate g
    by blast
  have r: "snd (pipeline ?q example_search example_chunks
            (fixed_reply (Response 200 (Some REFUSAL_TEXT))))
       = Refused SelfRefusalGate REFUSAL_TEXT"
    by (simp add: sartre_pipeline generate_answer_fixed_reply refusal_text_stripped refuse_def)
  from g a r show ?thesis by blast
qed

section \<open>Properties of context assembly\<close>

lemma length_join:
  "length (join sep xs) = sum_list (map length xs) + length sep * (length xs - 1)"
  by (induction sep xs rule: join.induct) simp_all

lemma build_loop_prefix:
  "\<exists>k. build_loop ps parts n = parts @ map snippet (take k ps)"
proof (induction ps arbitrary: parts n)
  case Nil
  then show ?case by simp
next
  case (Cons p ps)
  show ?case
  proof (cases "n + length (snippet p) > MAX_CONTEXT_CHARS")
    case True
    then have "build_loop (p # ps) parts n = parts @ map snippet (take 0 (p # ps))" by simp
    then show ?thesis by blast
  next
    case False
    from Cons.IH [of "parts @ [snippet p]" "n + length (snippet p)"] obtain k where
      "build_loop ps (parts @ [snippet p]) (n + length (snippet p)) =
         (parts @ [snippet p]) @ map snippet (take k ps)" by blast
    with False have "build_loop (p # ps) parts n = parts @ map snippet (take (Suc k) (p # ps))"
      by simp
    then show ?thesis by blast
  qed
qed

lemma build_loop_total:
  "sum_list (map length parts) = n \<Longrightarrow> n \<le> MAX_CONTEXT_CHARS \<Longrightarrow>
   sum_list (map length (build_loop ps parts n)) \<le> MAX_CONTEXT_CHARS"
proof (induction ps arbitrary: parts n)
  case Nil
  then show ?case by simp
next
  case (Cons p ps)
  show ?case
  proof (cases "n + length (snippet p) > MAX_CONTEXT_CHARS")
    case True
    with Cons.prems show ?thesis by simp
  next
    case False
    have "sum_list (map length (parts @ [snippet p])) = n + length (snippet p)"
      using Cons.prems by simp
    moreover have "n + length (snippet p) \<le> MAX_CONTEXT_CHARS"
      using False by simp
    ultimately have
      "sum_list (map length (build_loop ps (parts @ [snippet p]) (n + length (snippet p))))
         \<le> MAX_CONTEXT_CHARS"
      by (rule Cons.IH)
    with False show ?thesis by simp
  qed
qed

lemma build_loop_length: "length (build_loop ps parts n) \<le> length parts + length ps"
proof (induction ps arbitrary: parts n)
  case Nil
  then show ?case by simp
next
  case (Cons p ps)
  have "length (build_loop ps (parts @ [snippet p]) (n + length (snippet p)))
          \<le> length (parts @ [snippet p]) + length ps"
    by (rule Cons.IH)
  then show ?case by simp
qed

text \<open>
  The budget holds for the snippets alone; the separators come on top of it.
\<close>

lemma build_context_snippets_within_budget:
  "sum_list (map length (build_loop passages [] 0)) \<le> MAX_CONTEXT_CHARS"
  by (rule build_loop_total) simp_all

lemma build_context_length_bound:
  "length (build_context passages) \<le> MAX_CONTEXT_CHARS + 2 * (length passages - 1)"
proof -
  have "length (build_loop passages [] 0) \<le> length passages"
    using build_loop_length [of passages "[]" 0] by simp
  then have "2 * (length (build_loop passages [] 0) - 1) \<le> 2 * (length passages - 1)"
    by simp
  with build_context_snippets_within_budget [of passages] show ?thesis
    by (simp add: build_context_def length_join)
qed

lemma str_int_1: "str_int 1 = ''1''"
  by (simp add: str_int_def digit_def char_of_def bit_0)

lemma full_passage_snippet: "length (snippet full_passage) = 750"
  by (simp add: snippet_def full_passage_def str_int_1)

text \<open>
  Claim C7 says that the text returned by \<open>build_context\<close> has at most
  \<open>MAX_CONTEXT_CHARS\<close> characters, separators included. The loop counts the snippets
  only: four snippets of 750 characters fill the budget exactly and are joined into a
  text of 3006 characters.
\<close>

theorem build_context_exceeds_budget:
  "length (build_context [full_passage, full_passage, full_passage, full_passage]) = 3006
   \<and> MAX_CONTEXT_CHARS = 3000"
  by (simp add: build_context_def length_join full_passage_snippet MAX_CONTEXT_CHARS_def)

section \<open>Properties of the support verifier\<close>

lemma append_eq_split:
  "xs @ ys = us @ vs \<Longrightarrow> length us \<le> length xs \<Longrightarrow> \<exists>ws. xs = us @ ws \<and> vs = ws @ ys"
proof (induction us arbitrary: xs)
  case Nil
  then show ?case by simp
next
  case (Cons u us)
  then obtain x xs' where xs: "xs = x # xs'" by (cases xs) auto
  with Cons.prems have "x = u" "xs' @ ys = us @ vs" "length us \<le> length xs'" by simp_all
  from Cons.IH [OF this(2,3)] xs \<open>x = u\<close> show ?case by auto
qed

lemma is_token_run:
  assumes "list_all is_alpha w"
  shows "is_token t w \<longleftrightarrow> t = w \<and> 3 \<le> length w"
proof
  assume "is_token t w"
  then obtain pre post where
    w: "w = pre @ t @ post" and len: "3 \<le> length t" and
    pre: "pre = [] \<or> \<not> is_alpha (last pre)" and post: "post = [] \<or> \<not> is_alpha (hd post)"
    by (auto simp: is_token_def)
  have "pre = []"
  proof (rule ccontr)
    assume "pre \<noteq> []"
    then have "last pre \<in> set w" using w by simp
    with assms have "is_alpha (last pre)" by (simp add: list_all_iff)
    with pre \<open>pre \<noteq> []\<close> show False by simp
  qed
  moreover have "post = []"
  proof (rule ccontr)
    assume "post \<noteq> []"
    then have "hd post \<in> set w" using w by simp
    with assms have "is_alpha (hd post)" by (simp add: list_all_iff)
    with post \<open>post \<noteq> []\<close> show False by simp
  qed
  ultimately show "t = w \<and> 3 \<le> length w" using w len by simp
next
  assume "t = w \<and> 3 \<le> length w"
  with assms have "w = [] @ t @ [] \<and> 3 \<le> length t \<and> list_all is_alpha t" by simp
  then show "is_token t w" unfolding is_token_def by blast
qed

lemma is_token_after_run:
  assumes w: "list_all is_alpha w" and c: "\<not> is_alpha c"
  shows "is_token t (w @ c # cs) \<longleftrightarrow> (t = w \<and> 3 \<le> length w) \<or> is_token t cs"
proof
  assume "is_token t (w @ c # cs)"
  then obtain pre post where
    eq: "w @ c # cs = pre @ t @ post" and len: "3 \<le> length t" and t: "list_all is_alpha t" and
    pre: "pre = [] \<or> \<not> is_alpha (last pre)" and post: "post = [] \<or> \<not> is_alpha (hd post)"
    by (auto simp: is_token_def)
  from t c have cnt: "c \<notin> set t" by (auto simp: list_all_iff)
  from len have tne: "t \<noteq> []" by auto
  show "(t = w \<and> 3 \<le> length w) \<or> is_token t cs"
  proof (cases "length pre \<le> length w")
    case True
    \<comment> \<open>the token starts inside the run\<close>
    with eq obtain us where us: "w = pre @ us" "t @ post = us @ c # cs"
      using append_eq_split [of w "c # cs" pre "t @ post"] by auto
    have "pre = []"
    proof (rule ccontr)
      assume "pre \<noteq> []"
      then have "last pre \<in> set w" using us by simp
      with w have "is_alpha (last pre)" by (simp add: list_all_iff)
      with pre \<open>pre \<noteq> []\<close> show False by simp
    qed
    with us have wu: "w = us" by simp
    have "length t \<le> length us"
    proof (rule ccontr)
      assume "\<not> length t \<le> length us"
      then have "length us \<le> length t" "length us < length t" by simp_all
      with us(2) obtain ws where ws: "t = us @ ws" "c # cs = ws @ post"
        using append_eq_split [of t post us "c # cs"] by auto
      with \<open>length us < length t\<close> have "ws \<noteq> []" by auto
      with ws have "c \<in> set t" by (cases ws) auto
      with cnt show False by simp
    qed
    with us(2) obtain vs where vs: "us = t @ vs" "post = vs @ c # cs"
      using append_eq_split [of us "c # cs" t post] by auto
    have "vs = []"
    proof (rule ccontr)
      assume "vs \<noteq> []"
      then have "hd post = hd vs" "hd vs \<in> set w" using vs wu by simp_all
      with w have "is_alpha (hd post)" by (simp add: list_all_iff)
      with post vs show False by simp
    qed
    with vs wu len show ?thesis by simp
  next
    case False
    then have "length w \<le> length pre" "length w < length pre" by simp_all
    with eq obtain us where us: "pre = w @ us" "c # cs = us @ t @ post" "us \<noteq> []"
      using append_eq_split [of pre "t @ post" w "c # cs"] by auto
    then obtain us' where us': "us = c # us'" "cs = us' @ t @ post"
      by (cases us) auto
    have "us' = [] \<or> \<not> is_alpha (last us')"
      using pre us us' by auto
    with us' len t post show ?thesis unfolding is_token_def by blast
  qed
next
  assume "(t = w \<and> 3 \<le> length w) \<or> is_token t cs"
  then show "is_token t (w @ c # cs)"
  proof
    assume "t = w \<and> 3 \<le> length w"
    with w c have "w @ c # cs = [] @ t @ (c # cs) \<and> 3 \<le> length t \<and> list_all is_alpha t \<and>
      \<not> is_alpha (hd (c # cs))" by simp
    then show ?thesis unfolding is_token_def by blast
  next
    assume "is_token t cs"
    then obtain pre post where
      eq: "cs = pre @ t @ post" and len: "3 \<le> length t" and t: "list_all is_alpha t" and
      pre: "pre = [] \<or> \<not> is_alpha (last pre)" and post: "post = [] \<or> \<not> is_alpha (hd post)"
      by (auto simp: is_token_def)
    have "w @ c # cs = (w @ c # pre) @ t @ post" using eq by simp
    moreover have "\<not> is_alpha (last (w @ c # pre))" using pre c by auto
    ultimately show ?thesis using len t post unfolding is_token_def by blast
  qed
qed

lemma set_emit: "set (emit cur) = {t. t = rev cur \<and> 3 \<le> length cur}"
  by (auto simp: emit_def)

lemma scan_alpha3_tokens:
  "list_all is_alpha cur \<Longrightarrow> set (scan_alpha3 cur s) = {t. is_token t (rev cur @ s)}"
proof (induction s arbitrary: cur)
  case Nil
  then have "list_all is_alpha (rev cur)" by (simp add: list_all_iff)
  then show ?case by (auto simp: set_emit is_token_run)
next
  case (Cons c cs)
  show ?case
  proof (cases "is_alpha c")
    case True
    with Cons.prems have "list_all is_alpha (c # cur)" by simp
    from Cons.IH [OF this] True show ?thesis by simp
  next
    case False
    from Cons.prems have run: "list_all is_alpha (rev cur)" by (simp add: list_all_iff)
    have "set (scan_alpha3 [] cs) = {t. is_token t cs}"
      using Cons.IH [of "[]"] by simp
    with False show ?thesis
      by (auto simp: set_emit is_token_after_run [OF run False])
  qed
qed

lemma findall_alpha3_tokens: "set (findall_alpha3 s) = {t. is_token t s}"
  using scan_alpha3_tokens [of "[]" s] by (simp add: findall_alpha3_def)

lemma keywords_of_terms: "set (keywords_of query) = content_terms query"
  by (auto simp: keywords_of_def content_terms_def findall_alpha3_tokens)

lemma contains_sublist: "contains t s \<longleftrightarrow> sublist t s"
  by (induction s) (simp_all add: sublist_Cons_right)

text \<open>
  Claim C4: \<open>query_supported_by_context\<close> computes the set of the distinct lower-cased
  alphabetic tokens of length at least three of the query that are no stopwords; it returns
  false when the set is empty, and otherwise true exactly when the number of these terms
  that occur in the lower-cased text of the chunks is at least one if the set has at most
  four terms, and at least two otherwise.
\<close>

theorem query_supported_by_context_spec:
  "query_supported_by_context query passages = supported_spec query passages"
proof -
  let ?ks = "remdups (keywords_of query)"
  let ?ctx = "str_lower (join '' '' (map chunk passages))"
  have terms: "set ?ks = content_terms query"
    by (simp add: keywords_of_terms)
  have n: "length ?ks = card (content_terms query)"
    using distinct_card [of ?ks] terms by simp
  have "distinct (filter (\<lambda>t. contains t ?ctx) ?ks)" by simp
  then have "length (filter (\<lambda>t. contains t ?ctx) ?ks)
      = card (set (filter (\<lambda>t. contains t ?ctx) ?ks))"
    by (rule distinct_card [symmetric])
  also have "set (filter (\<lambda>t. contains t ?ctx) ?ks) = {t \<in> content_terms query. sublist t ?ctx}"
    using terms by (auto simp: contains_sublist)
  finally have hits: "length (filter (\<lambda>t. contains t ?ctx) ?ks)
      = card {t \<in> content_terms query. sublist t ?ctx}" .
  have empty: "?ks = [] \<longleftrightarrow> content_terms query = {}"
    using terms by auto
  show ?thesis
    unfolding query_supported_by_context_def supported_spec_def Let_def
    by (simp only: hits n empty) auto
qed

lemma bad_faith_keywords: "keywords_of ''What is bad faith?'' = [''bad'', ''faith'']"
  by (simp add: keywords_of_def findall_alpha3_def emit_def STOPWORDS_def str_lower_def char_tables)

lemma what_is_it_keywords: "keywords_of ''What is it?'' = []"
  by (simp add: keywords_of_def findall_alpha3_def emit_def STOPWORDS_def str_lower_def char_tables)

lemma bad_faith_supported: "query_supported_by_context ''What is bad faith?'' [faith_passage]"
  by (simp add: query_supported_by_context_def bad_faith_keywords faith_passage_def
      str_lower_def char_tables)

lemma what_is_it_unsupported: "\<not> query_supported_by_context ''What is it?'' [faith_passage]"
  by (simp add: query_supported_by_context_def what_is_it_keywords)

theorem query_supported_by_context_spec_witness:
  "query_supported_by_context ''What is bad faith?'' [faith_passage]
   \<and> supported_spec ''What is bad faith?'' [faith_passage]
   \<and> \<not> query_supported_by_context ''What is it?'' [faith_passage]
   \<and> \<not> supported_spec ''What is it?'' [faith_passage]"
  using bad_faith_supported what_is_it_unsupported
    query_supported_by_context_spec [of "''What is bad faith?''" "[faith_passage]"]
    query_supported_by_context_spec [of "''What is it?''" "[faith_passage]"]
  by blast

end
